theory Spec2Isabelle
  imports Main "HOL-Library.Word"
begin

section \<open>Strings of the host language\<close>

text \<open>
  A TypeScript string is a sequence of 16-bit code units.  ASCII literals of the source are
  written through \<open>of_ascii\<close>.
\<close>

type_synonym jsstring = "16 word list"

definition of_ascii :: "string \<Rightarrow> jsstring" where
  "of_ascii s = map (\<lambda>c. of_nat (of_char c)) s"

text \<open>
  \<open>String.prototype.trim\<close> removes, at both ends, the code units that ECMAScript calls
  WhiteSpace or LineTerminator: TAB, LF, VT, FF, CR, SPACE, NBSP, the space separators
  U+1680, U+2000..U+200A, U+202F, U+205F, U+3000, the separators U+2028 and U+2029, and
  U+FEFF.
\<close>

definition isWhiteSpace :: "16 word \<Rightarrow> bool" where
  "isWhiteSpace c \<longleftrightarrow>
     c \<in> set [0x0009, 0x000A, 0x000B, 0x000C, 0x000D, 0x0020, 0x00A0, 0x1680,
               0x2028, 0x2029, 0x202F, 0x205F, 0x3000, 0xFEFF]
     \<or> (0x2000 \<le> c \<and> c \<le> 0x200A)"

definition trim :: "jsstring \<Rightarrow> jsstring" where
  "trim s = rev (dropWhile isWhiteSpace (rev (dropWhile isWhiteSpace s)))"

text \<open>
  \<open>s.split(sep)\<close> for a separator of one code unit: the pieces between the separators, in
  order; the empty string gives one empty piece.
\<close>

fun split :: "jsstring \<Rightarrow> 16 word \<Rightarrow> jsstring list" where
  "split [] sep = [[]]"
| "split (c # cs) sep =
     (if c = sep then [] # split cs sep
      else (case split cs sep of [] \<Rightarrow> [[c]] | p # ps \<Rightarrow> (c # p) # ps))"

definition comma :: "16 word" where
  "comma = 0x2C"

text \<open>The callback \<open>ch => ch !== ""\<close> of both \<open>filter\<close> calls.\<close>

definition nonEmpty :: "jsstring \<Rightarrow> bool" where
  "nonEmpty ch \<longleftrightarrow> ch \<noteq> []"

text \<open>
  \<open>String.prototype.toUpperCase\<close> follows the Unicode case-mapping tables of the host, which
  are not part of the program: the logging functions below take it as the parameter
  \<open>toUpperCase\<close>.  On strings of ASCII code units it is the function \<open>toUpperCase_ascii\<close>,
  which the concrete examples use.
\<close>

definition toUpperCase_ascii :: "jsstring \<Rightarrow> jsstring" where
  "toUpperCase_ascii s = map (\<lambda>c. if 0x61 \<le> c \<and> c \<le> 0x7A then c - 0x20 else c) s"


section \<open>Program state\<close>

text \<open>
  A message is any value (\<open>unknown\<close>); the prefix handed to the console is a string value.
\<close>

datatype 'u jsvalue = JString jsstring | JOther 'u

datatype sink = ConsoleLog | ConsoleError | ConsoleDebug

type_synonym addr = nat

text \<open>
  Arrays are objects: \<open>heap\<close> holds the contents of every array the module has created, an
  array's address is its index there.  \<open>activeChannels\<close> is the closure variable, a reference
  to an array.  \<open>console\<close> is what has been written so far: one entry per call of
  \<open>console.log\<close>, \<open>console.error\<close> or \<open>console.debug\<close>, with the arguments of the call,
  oldest first.
\<close>

record 'u state =
  heap :: "jsstring list list"
  activeChannels :: addr
  console :: "(sink \<times> 'u jsvalue list) list"

definition active :: "'u state \<Rightarrow> jsstring list" where
  "active st = heap st ! activeChannels st"

text \<open>\<open>activeChannels = e\<close>, where \<open>e\<close> evaluates to a new array with contents \<open>xs\<close>.\<close>

definition assign :: "jsstring list \<Rightarrow> 'u state \<Rightarrow> 'u state" where
  "assign xs st = st\<lparr>heap := heap st @ [xs], activeChannels := length (heap st)\<rparr>"

text \<open>The state in which the module body starts: no array yet, nothing written.\<close>

definition uninitialised :: "'u state" where
  "uninitialised = \<lparr>heap = [], activeChannels = 0, console = []\<rparr>"

definition console_log :: "'u jsvalue list \<Rightarrow> 'u state \<Rightarrow> 'u state" where
  "console_log data st = st\<lparr>console := console st @ [(ConsoleLog, data)]\<rparr>"

definition console_error :: "'u jsvalue list \<Rightarrow> 'u state \<Rightarrow> 'u state" where
  "console_error data st = st\<lparr>console := console st @ [(ConsoleError, data)]\<rparr>"

definition console_debug :: "'u jsvalue list \<Rightarrow> 'u state \<Rightarrow> 'u state" where
  "console_debug data st = st\<lparr>console := console st @ [(ConsoleDebug, data)]\<rparr>"

text \<open>What a call wrote: the entries of the console after it that were not there before.\<close>

definition emitted :: "'u state \<Rightarrow> 'u state \<Rightarrow> (sink \<times> 'u jsvalue list) list" where
  "emitted st st' = drop (length (console st)) (console st')"


section \<open>The module of \<open>src/logchannel.ts\<close>\<close>

text \<open>
  \<open>Deno.env.get("LOG_CHANNELS")\<close> throws (permission missing, or \<open>Deno.env\<close> not
  available), or returns \<open>undefined\<close>, or returns the value.
\<close>

datatype error = PermissionDenied | NotAvailable

type_synonym env_get = "error + jsstring option"

text \<open>The body of the \<open>try\<close> block of \<open>initChannels\<close>.\<close>

definition initChannels_try :: "env_get \<Rightarrow> 'u state \<Rightarrow> error + 'u state" where
  "initChannels_try env st =
     (case env of
        Inl e \<Rightarrow> Inl e
      | Inr channelsFromEnv \<Rightarrow>
          (case channelsFromEnv of
             None \<Rightarrow> Inr (assign [of_ascii ''default''] st)
           | Some v \<Rightarrow>
               if v \<noteq> [] \<and> trim v \<noteq> [] then
                 (let st1 = assign (filter nonEmpty (map trim (split v comma))) st
                  in if length (active st1) = 0
                     then Inr (assign [of_ascii ''default''] st1)
                     else Inr st1)
               else Inr (assign [of_ascii ''default''] st)))"

text \<open>\<open>initChannels\<close>: the \<open>try\<close> block, with the \<open>catch\<close> clause for whatever it throws.\<close>

definition initChannels :: "env_get \<Rightarrow> 'u state \<Rightarrow> error + 'u state" where
  "initChannels env st =
     (case initChannels_try env st of
        Inl _ \<Rightarrow> Inr (assign [of_ascii ''default''] st)
      | Inr st' \<Rightarrow> Inr st')"

text \<open>
  The argument of \<open>setChannel\<close> is a string or an array of strings.  The function only
  reads the array (\<open>map\<close> builds a new one), so the argument is given by its elements.
  The array that \<open>map\<close> returns is dropped once \<open>filter\<close> has read it; the array that
  \<open>filter\<close> returns, or the array literal, is the one stored in \<open>activeChannels\<close>.
\<close>

datatype channels = Str jsstring | Arr "jsstring list"

definition setChannel :: "channels \<Rightarrow> 'u state \<Rightarrow> 'u state" where
  "setChannel chs st =
     (case chs of
        Arr cs \<Rightarrow> assign (filter nonEmpty (map trim cs)) st
      | Str s \<Rightarrow>
          (let trimmedChannel = trim s
           in assign (if trimmedChannel \<noteq> [] then [trimmedChannel] else []) st))"

datatype logType = ERROR | DEBUG

fun logType_text :: "logType \<Rightarrow> jsstring" where
  "logType_text ERROR = of_ascii ''ERROR''"
| "logType_text DEBUG = of_ascii ''DEBUG''"

definition processLogEvent ::
  "(jsstring \<Rightarrow> jsstring) \<Rightarrow> ('u jsvalue list \<Rightarrow> 'u state \<Rightarrow> 'u state) \<Rightarrow>
   jsstring \<Rightarrow> 'u jsvalue list \<Rightarrow> logType option \<Rightarrow> 'u state \<Rightarrow> 'u state" where
  "processLogEvent toUpperCase outputFn channel messages lt st =
     (if length messages > 0 \<and> channel \<in> set (active st) then
        (let prefix =
           (case lt of
              Some t \<Rightarrow> of_ascii ''['' @ toUpperCase channel @ of_ascii '':'' @ logType_text t
                        @ of_ascii '']''
            | None \<Rightarrow> of_ascii ''['' @ toUpperCase channel @ of_ascii '']'')
         in outputFn (JString prefix # messages) st)
      else st)"

definition log ::
  "(jsstring \<Rightarrow> jsstring) \<Rightarrow> jsstring \<Rightarrow> 'u jsvalue list \<Rightarrow> 'u state \<Rightarrow> 'u state" where
  "log toUpperCase channel messages st =
     processLogEvent toUpperCase console_log channel messages None st"

definition error ::
  "(jsstring \<Rightarrow> jsstring) \<Rightarrow> jsstring \<Rightarrow> 'u jsvalue list \<Rightarrow> 'u state \<Rightarrow> 'u state" where
  "error toUpperCase channel messages st =
     processLogEvent toUpperCase console_error channel messages (Some ERROR) st"

definition debug ::
  "(jsstring \<Rightarrow> jsstring) \<Rightarrow> jsstring \<Rightarrow> 'u jsvalue list \<Rightarrow> 'u state \<Rightarrow> 'u state" where
  "debug toUpperCase channel messages st =
     processLogEvent toUpperCase console_debug channel messages (Some DEBUG) st"

text \<open>\<open>[...activeChannels]\<close>: a new array with the same elements; its address is returned.\<close>

definition getActiveChannels :: "'u state \<Rightarrow> addr \<times> 'u state" where
  "getActiveChannels st = (length (heap st), st\<lparr>heap := heap st @ [active st]\<rparr>)"

text \<open>Loading the module runs \<open>initChannels()\<close> once.\<close>

definition LogChannel :: "env_get \<Rightarrow> error + 'u state" where
  "LogChannel env = initChannels env uninitialised"


section \<open>The module of \<open>src/unnamed/part_000\<close>\<close>

text \<open>
  The second source file declares the interface \<open>ILogChannel\<close> and defines the module
  again; its functions are embedded separately, under the suffix \<open>_part000\<close>.
\<close>

definition initChannels_try_part000 :: "env_get \<Rightarrow> 'u state \<Rightarrow> error + 'u state" where
  "initChannels_try_part000 env st =
     (case env of
        Inl e \<Rightarrow> Inl e
      | Inr channelsFromEnv \<Rightarrow>
          (case channelsFromEnv of
             None \<Rightarrow> Inr (assign [of_ascii ''default''] st)
           | Some v \<Rightarrow>
               if v \<noteq> [] \<and> trim v \<noteq> [] then
                 (let st1 = assign (filter nonEmpty (map trim (split v comma))) st
                  in if length (active st1) = 0
                     then Inr (assign [of_ascii ''default''] st1)
                     else Inr st1)
               else Inr (assign [of_ascii ''default''] st)))"

definition initChannels_part000 :: "env_get \<Rightarrow> 'u state \<Rightarrow> error + 'u state" where
  "initChannels_part000 env st =
     (case initChannels_try_part000 env st of
        Inl _ \<Rightarrow> Inr (assign [of_ascii ''default''] st)
      | Inr st' \<Rightarrow> Inr st')"

definition setChannel_part000 :: "channels \<Rightarrow> 'u state \<Rightarrow> 'u state" where
  "setChannel_part000 chs st =
     (case chs of
        Arr cs \<Rightarrow> assign (filter nonEmpty (map trim cs)) st
      | Str s \<Rightarrow>
          (let trimmedChannel = trim s
           in assign (if trimmedChannel \<noteq> [] then [trimmedChannel] else []) st))"

definition processLogEvent_part000 ::
  "(jsstring \<Rightarrow> jsstring) \<Rightarrow> ('u jsvalue list \<Rightarrow> 'u state \<Rightarrow> 'u state) \<Rightarrow>
   jsstring \<Rightarrow> 'u jsvalue list \<Rightarrow> logType option \<Rightarrow> 'u state \<Rightarrow> 'u state" where
  "processLogEvent_part000 toUpperCase outputFn channel messages lt st =
     (if length messages > 0 \<and> channel \<in> set (active st) then
        (let prefix =
           (case lt of
              Some t \<Rightarrow> of_ascii ''['' @ toUpperCase channel @ of_ascii '':'' @ logType_text t
                        @ of_ascii '']''
            | None \<Rightarrow> of_ascii ''['' @ toUpperCase channel @ of_ascii '']'')
         in outputFn (JString prefix # messages) st)
      else st)"

definition log_part000 ::
  "(jsstring \<Rightarrow> jsstring) \<Rightarrow> jsstring \<Rightarrow> 'u jsvalue list \<Rightarrow> 'u state \<Rightarrow> 'u state" where
  "log_part000 toUpperCase channel messages st =
     processLogEvent_part000 toUpperCase console_log channel messages None st"

definition error_part000 ::
  "(jsstring \<Rightarrow> jsstring) \<Rightarrow> jsstring \<Rightarrow> 'u jsvalue list \<Rightarrow> 'u state \<Rightarrow> 'u state" where
  "error_part000 toUpperCase channel messages st =
     processLogEvent_part000 toUpperCase console_error channel messages (Some ERROR) st"

definition debug_part000 ::
  "(jsstring \<Rightarrow> jsstring) \<Rightarrow> jsstring \<Rightarrow> 'u jsvalue list \<Rightarrow> 'u state \<Rightarrow> 'u state" where
  "debug_part000 toUpperCase channel messages st =
     processLogEvent_part000 toUpperCase console_debug channel messages (Some DEBUG) st"

definition getActiveChannels_part000 :: "'u state \<Rightarrow> addr \<times> 'u state" where
  "getActiveChannels_part000 st = (length (heap st), st\<lparr>heap := heap st @ [active st]\<rparr>)"

definition LogChannel_part000 :: "env_get \<Rightarrow> error + 'u state" where
  "LogChannel_part000 env = initChannels_part000 env uninitialised"


section \<open>Programs that use the module\<close>

text \<open>
  The code that imports the module can call the five functions of the returned object and
  can change, in any way, the arrays it holds a reference to: those that
  \<open>getActiveChannels\<close> returned.  \<open>mutate a ys\<close> is any such change: the array at \<open>a\<close> has
  the contents \<open>ys\<close> afterwards.  \<open>returned\<close> lists the references handed out so far, and
  \<open>Mutate k ys\<close> changes the \<open>k\<close>-th of them.
\<close>

definition mutate :: "addr \<Rightarrow> jsstring list \<Rightarrow> 'u state \<Rightarrow> 'u state" where
  "mutate a ys st = st\<lparr>heap := (heap st)[a := ys]\<rparr>"

record 'u world =
  gate :: "'u state"
  returned :: "addr list"

datatype 'u call =
    SetChannel channels
  | Log jsstring "'u jsvalue list"
  | Error jsstring "'u jsvalue list"
  | Debug jsstring "'u jsvalue list"
  | GetActiveChannels
  | Mutate nat "jsstring list"

fun step :: "(jsstring \<Rightarrow> jsstring) \<Rightarrow> 'u world \<Rightarrow> 'u call \<Rightarrow> 'u world" where
  "step up w (SetChannel chs) = w\<lparr>gate := setChannel chs (gate w)\<rparr>"
| "step up w (Log ch ms) = w\<lparr>gate := log up ch ms (gate w)\<rparr>"
| "step up w (Error ch ms) = w\<lparr>gate := error up ch ms (gate w)\<rparr>"
| "step up w (Debug ch ms) = w\<lparr>gate := debug up ch ms (gate w)\<rparr>"
| "step up w GetActiveChannels =
     (case getActiveChannels (gate w) of
        (r, st') \<Rightarrow> \<lparr>gate = st', returned = returned w @ [r]\<rparr>)"
| "step up w (Mutate k ys) =
     (if k < length (returned w)
      then w\<lparr>gate := mutate (returned w ! k) ys (gate w)\<rparr>
      else w)"

definition run ::
  "(jsstring \<Rightarrow> jsstring) \<Rightarrow> env_get \<Rightarrow> 'u call list \<Rightarrow> error + 'u world" where
  "run up env calls =
     (case LogChannel env of
        Inl e \<Rightarrow> Inl e
      | Inr st \<Rightarrow> Inr (foldl (step up) \<lparr>gate = st, returned = []\<rparr> calls))"

fun step_part000 :: "(jsstring \<Rightarrow> jsstring) \<Rightarrow> 'u world \<Rightarrow> 'u call \<Rightarrow> 'u world" where
  "step_part000 up w (SetChannel chs) = w\<lparr>gate := setChannel_part000 chs (gate w)\<rparr>"
| "step_part000 up w (Log ch ms) = w\<lparr>gate := log_part000 up ch ms (gate w)\<rparr>"
| "step_part000 up w (Error ch ms) = w\<lparr>gate := error_part000 up ch ms (gate w)\<rparr>"
| "step_part000 up w (Debug ch ms) = w\<lparr>gate := debug_part000 up ch ms (gate w)\<rparr>"
| "step_part000 up w GetActiveChannels =
     (case getActiveChannels_part000 (gate w) of
        (r, st') \<Rightarrow> \<lparr>gate = st', returned = returned w @ [r]\<rparr>)"
| "step_part000 up w (Mutate k ys) =
     (if k < length (returned w)
      then w\<lparr>gate := mutate (returned w ! k) ys (gate w)\<rparr>
      else w)"

definition run_part000 ::
  "(jsstring \<Rightarrow> jsstring) \<Rightarrow> env_get \<Rightarrow> 'u call list \<Rightarrow> error + 'u world" where
  "run_part000 up env calls =
     (case LogChannel_part000 env of
        Inl e \<Rightarrow> Inl e
      | Inr st \<Rightarrow> Inr (foldl (step_part000 up) \<lparr>gate = st, returned = []\<rparr> calls))"

text \<open>
  Properties of states: the closure variable refers to an array that exists; a channel
  name is stored trimmed and is not empty.
\<close>

definition wf_state :: "'u state \<Rightarrow> bool" where
  "wf_state st \<longleftrightarrow> activeChannels st < length (heap st)"

definition stored_ok :: "jsstring \<Rightarrow> bool" where
  "stored_ok c \<longleftrightarrow> trim c \<noteq> [] \<and> trim c = c"

definition world_inv :: "'u world \<Rightarrow> bool" where
  "world_inv w \<longleftrightarrow>
     wf_state (gate w)
     \<and> activeChannels (gate w) \<notin> set (returned w)
     \<and> list_all (\<lambda>a. a < length (heap (gate w))) (returned w)
     \<and> list_all stored_ok (active (gate w))"


text \<open>A program and the state it ends in, for the examples.\<close>

definition example_calls :: "unit call list" where
  "example_calls =
     [SetChannel (Arr [of_ascii ''  x '', of_ascii '' '', of_ascii ''y'']),
      Log (of_ascii ''x'') [JOther ()], GetActiveChannels, Mutate 0 [[]],
      SetChannel (Str (of_ascii '' z''))]"

definition example_world :: "unit world" where
  "example_world =
     \<lparr>gate = \<lparr>heap = [[of_ascii ''a'', of_ascii ''b'', of_ascii ''c''],
                       [of_ascii ''x'', of_ascii ''y''], [[]], [of_ascii ''z'']],
               activeChannels = 3,
               console = [(ConsoleLog, [JString (of_ascii ''[X]''), JOther ()])]\<rparr>,
      returned = [2]\<rparr>"


section \<open>Reading and writing the state\<close>

lemma active_assign: "active (assign xs st) = xs"
  by (simp add: active_def assign_def)

lemma emitted_processLogEvent:
  assumes "\<And>data. console (outputFn data st) = console st @ [(k, data)]"
  shows "emitted st (processLogEvent up outputFn ch ms lt st) =
     (if ms \<noteq> [] \<and> ch \<in> set (active st)
      then [(k, JString (of_ascii ''['' @ up ch
                 @ (case lt of None \<Rightarrow> [] | Some t \<Rightarrow> of_ascii '':'' @ logType_text t)
                 @ of_ascii '']'') # ms)]
      else [])"
  using assms by (cases lt) (simp_all add: processLogEvent_def emitted_def Let_def)

lemma emitted_log:
  "emitted st (log up ch ms st) =
     (if ms \<noteq> [] \<and> ch \<in> set (active st)
      then [(ConsoleLog, JString (of_ascii ''['' @ up ch @ of_ascii '']'') # ms)] else [])"
  unfolding log_def by (subst emitted_processLogEvent [where k = ConsoleLog]) (simp_all add: console_log_def)

lemma emitted_error:
  "emitted st (error up ch ms st) =
     (if ms \<noteq> [] \<and> ch \<in> set (active st)
      then [(ConsoleError, JString (of_ascii ''['' @ up ch @ of_ascii '':ERROR]'') # ms)] else [])"
  unfolding error_def by (subst emitted_processLogEvent [where k = ConsoleError]) (simp_all add: console_error_def of_ascii_def)

lemma emitted_debug:
  "emitted st (debug up ch ms st) =
     (if ms \<noteq> [] \<and> ch \<in> set (active st)
      then [(ConsoleDebug, JString (of_ascii ''['' @ up ch @ of_ascii '':DEBUG]'') # ms)] else [])"
  unfolding debug_def by (subst emitted_processLogEvent [where k = ConsoleDebug]) (simp_all add: console_debug_def of_ascii_def)


section \<open>Trimming\<close>

lemma last_dropWhile: "dropWhile P xs \<noteq> [] \<Longrightarrow> last (dropWhile P xs) = last xs"
  by (induction xs) (auto split: if_splits)

lemma trim_fixed:
  assumes "s = [] \<or> (\<not> isWhiteSpace (hd s) \<and> \<not> isWhiteSpace (last s))"
  shows "trim s = s"
proof (cases "s = []")
  case True
  then show ?thesis by (simp add: trim_def)
next
  case False
  with assms have h: "\<not> isWhiteSpace (hd s)" and l: "\<not> isWhiteSpace (last s)" by auto
  from h False have fr: "dropWhile isWhiteSpace s = s"
    by (cases s) auto
  from l False have bk: "dropWhile isWhiteSpace (rev s) = rev s"
    by (simp add: dropWhile_eq_self_iff hd_rev)
  show ?thesis by (simp add: trim_def fr bk)
qed

lemma trim_ends:
  assumes "trim s \<noteq> []"
  shows "\<not> isWhiteSpace (hd (trim s)) \<and> \<not> isWhiteSpace (last (trim s))"
proof -
  define t where "t = dropWhile isWhiteSpace s"
  define r where "r = dropWhile isWhiteSpace (rev t)"
  have tr: "trim s = rev r" by (simp add: trim_def t_def r_def)
  from assms tr have rne: "r \<noteq> []" by simp
  then have tne: "t \<noteq> []" by (auto simp: r_def)
  from rne have "\<not> isWhiteSpace (hd r)" unfolding r_def by (rule hd_dropWhile)
  then have a: "\<not> isWhiteSpace (last (trim s))" using rne by (simp add: tr last_rev)
  from rne have "last r = last (rev t)" unfolding r_def by (rule last_dropWhile)
  then have "last r = hd t" using tne by (simp add: last_rev)
  moreover from tne have "\<not> isWhiteSpace (hd t)" unfolding t_def by (rule hd_dropWhile)
  ultimately have b: "\<not> isWhiteSpace (hd (trim s))" using rne by (simp add: tr hd_rev)
  from a b show ?thesis by simp
qed

lemma trim_idem: "trim (trim s) = trim s"
  by (rule trim_fixed) (use trim_ends in blast)

lemma stored_ok_trim: "trim s \<noteq> [] \<Longrightarrow> stored_ok (trim s)"
  by (simp add: stored_ok_def trim_idem)

lemma stored_ok_default: "stored_ok (of_ascii ''default'')"
  by (simp add: stored_ok_def trim_def of_ascii_def isWhiteSpace_def)

lemma stored_ok_parts: "list_all stored_ok (filter nonEmpty (map trim cs))"
  by (induction cs) (simp_all add: nonEmpty_def stored_ok_trim)

lemma stored_ok_setChannel: "list_all stored_ok (active (setChannel chs st))"
  by (cases chs) (simp_all add: setChannel_def active_assign stored_ok_parts stored_ok_trim Let_def)

lemma initChannels_cases:
  "initChannels env st = Inr (assign [of_ascii ''default''] st)
   \<or> initChannels env st =
       Inr (assign [of_ascii ''default''] (assign [] st))
   \<or> (\<exists>v. env = Inr (Some v) \<and> trim v \<noteq> [] \<and> filter nonEmpty (map trim (split v comma)) \<noteq> []
        \<and> initChannels env st = Inr (assign (filter nonEmpty (map trim (split v comma))) st))"
  by (auto simp add: initChannels_def initChannels_try_def active_assign Let_def
      split: sum.splits option.splits)

lemma initChannels_total: "\<exists>st'. initChannels env st = Inr st'"
  using initChannels_cases [of env st] by auto


section \<open>What every reachable state satisfies\<close>

lemma frame_processLogEvent:
  assumes "\<And>data. heap (outputFn data st) = heap st"
    and "\<And>data. activeChannels (outputFn data st) = activeChannels st"
  shows "heap (processLogEvent up outputFn ch ms lt st) = heap st
     \<and> activeChannels (processLogEvent up outputFn ch ms lt st) = activeChannels st"
  using assms by (simp add: processLogEvent_def Let_def)

lemma frame_log:
  "heap (log up ch ms st) = heap st \<and> activeChannels (log up ch ms st) = activeChannels st"
  unfolding log_def by (rule frame_processLogEvent) (simp_all add: console_log_def)

lemma frame_error:
  "heap (error up ch ms st) = heap st \<and> activeChannels (error up ch ms st) = activeChannels st"
  unfolding error_def by (rule frame_processLogEvent) (simp_all add: console_error_def)

lemma frame_debug:
  "heap (debug up ch ms st) = heap st \<and> activeChannels (debug up ch ms st) = activeChannels st"
  unfolding debug_def by (rule frame_processLogEvent) (simp_all add: console_debug_def)

lemma wf_assign: "wf_state (assign xs st)"
  by (simp add: wf_state_def assign_def)

lemma getActiveChannels_frame:
  "activeChannels (snd (getActiveChannels st)) = activeChannels st
   \<and> console (snd (getActiveChannels st)) = console st
   \<and> fst (getActiveChannels st) = length (heap st)
   \<and> heap (snd (getActiveChannels st)) = heap st @ [active st]"
  by (simp add: getActiveChannels_def)

lemma active_getActiveChannels:
  "wf_state st \<Longrightarrow> active (snd (getActiveChannels st)) = active st"
  by (simp add: getActiveChannels_def active_def wf_state_def nth_append)

lemma active_mutate:
  "a \<noteq> activeChannels st \<Longrightarrow> active (mutate a ys st) = active st"
  by (simp add: mutate_def active_def)

lemma inv_assign:
  assumes "world_inv w" and "list_all stored_ok xs"
  shows "world_inv (w\<lparr>gate := assign xs (gate w)\<rparr>)"
proof -
  from assms(1) have b: "list_all (\<lambda>a. a < length (heap (gate w))) (returned w)"
    by (simp add: world_inv_def)
  then have "length (heap (gate w)) \<notin> set (returned w)"
    by (auto simp: list_all_iff)
  moreover from b have "list_all (\<lambda>a. a < Suc (length (heap (gate w)))) (returned w)"
    by (auto simp: list_all_iff)
  ultimately show ?thesis
    using assms(2) by (simp add: world_inv_def wf_assign active_assign) (simp add: assign_def)
qed

lemma inv_frame:
  assumes "world_inv w" and "heap st' = heap (gate w)" and "activeChannels st' = activeChannels (gate w)"
  shows "world_inv (w\<lparr>gate := st'\<rparr>)"
  using assms by (simp add: world_inv_def wf_state_def active_def)

lemma inv_step: "world_inv w \<Longrightarrow> world_inv (step up w c)"
proof (cases c)
  case (SetChannel chs)
  assume "world_inv w"
  then show ?thesis
    unfolding SetChannel step.simps
    by (cases chs)
       (simp_all add: setChannel_def Let_def inv_assign stored_ok_parts stored_ok_trim)
next
  case (Log ch ms)
  assume "world_inv w"
  then show ?thesis unfolding Log step.simps by (rule inv_frame) (simp_all add: frame_log)
next
  case (Error ch ms)
  assume "world_inv w"
  then show ?thesis unfolding Error step.simps by (rule inv_frame) (simp_all add: frame_error)
next
  case (Debug ch ms)
  assume "world_inv w"
  then show ?thesis unfolding Debug step.simps by (rule inv_frame) (simp_all add: frame_debug)
next
  case GetActiveChannels
  assume i: "world_inv w"
  then have "wf_state (gate w)" by (simp add: world_inv_def)
  with i show ?thesis
    unfolding GetActiveChannels
    by (auto simp add: world_inv_def getActiveChannels_def wf_state_def active_def nth_append list_all_iff)
next
  case (Mutate k ys)
  assume i: "world_inv w"
  show ?thesis
  proof (cases "k < length (returned w)")
    case True
    then have "returned w ! k \<in> set (returned w)" by simp
    with i have "returned w ! k \<noteq> activeChannels (gate w)" by (auto simp: world_inv_def)
    with i True show ?thesis
      unfolding Mutate by (simp add: world_inv_def wf_state_def active_def mutate_def)
  next
    case False
    with i show ?thesis unfolding Mutate by simp
  qed
qed

lemma inv_foldl: "world_inv w \<Longrightarrow> world_inv (foldl (step up) w cs)"
  by (induction cs arbitrary: w) (simp_all add: inv_step)

lemma inv_init:
  assumes "initChannels env st = Inr st'"
  shows "world_inv \<lparr>gate = st', returned = []\<rparr>"
proof -
  have d: "list_all stored_ok [of_ascii ''default'']" by (simp add: stored_ok_default)
  from initChannels_cases [of env st] assms show ?thesis
    by (auto simp add: world_inv_def wf_assign active_assign stored_ok_default stored_ok_parts)
qed

lemma run_total: "\<exists>w. run up env calls = Inr w"
proof -
  from initChannels_total [of env uninitialised]
  obtain st' :: "'a state" where "initChannels env uninitialised = Inr st'" by blast
  then show ?thesis by (simp add: run_def LogChannel_def)
qed

lemma inv_run: "run up env calls = Inr w \<Longrightarrow> world_inv w"
  by (auto simp add: run_def LogChannel_def inv_foldl inv_init split: sum.splits)

lemma initChannels_parsed:
  assumes "trim v \<noteq> []" and "filter nonEmpty (map trim (split v comma)) \<noteq> []"
  shows "initChannels (Inr (Some v)) st
           = Inr (assign (filter nonEmpty (map trim (split v comma))) st)"
proof -
  from assms(1) have "v \<noteq> []" by (auto simp: trim_def)
  with assms show ?thesis
    by (simp add: initChannels_def initChannels_try_def active_assign Let_def)
qed

lemma initChannels_default:
  assumes "env = Inl e \<or> env = Inr None
     \<or> (env = Inr (Some v)
         \<and> (trim v = [] \<or> filter nonEmpty (map trim (split v comma)) = []))"
  shows "initChannels env st = Inr (assign [of_ascii ''default''] st)
     \<or> initChannels env st = Inr (assign [of_ascii ''default''] (assign [] st))"
  using assms
  by (auto simp add: initChannels_def initChannels_try_def active_assign Let_def)

lemma stored_okD: "stored_ok c \<Longrightarrow> trim c \<noteq> [] \<and> trim c = c \<and> c \<noteq> []"
  by (auto simp add: stored_ok_def)

lemma stored_ok_run:
  assumes "run up env calls = Inr w" and "c \<in> set (active (gate w))"
  shows "stored_ok c"
proof -
  from assms(1) have "world_inv w" by (rule inv_run)
  then have "list_all stored_ok (active (gate w))" by (simp add: world_inv_def)
  with assms(2) show ?thesis by (simp add: list_all_iff)
qed

lemma run_example:
  "run toUpperCase_ascii (Inr (Some (of_ascii ''a, b ,c''))) example_calls = Inr example_world"
  by (simp add: example_calls_def example_world_def
      run_def LogChannel_def initChannels_def initChannels_try_def
      setChannel_def log_def processLogEvent_def getActiveChannels_def mutate_def
      console_log_def assign_def active_def uninitialised_def Let_def nonEmpty_def
      toUpperCase_ascii_def of_ascii_def comma_def trim_def isWhiteSpace_def)

lemma active_example_world: "active (gate example_world) = [of_ascii ''z'']"
  by (simp add: example_world_def active_def)

lemma getActiveChannels_example:
  "getActiveChannels (gate example_world)
   = (4, \<lparr>heap = [[of_ascii ''a'', of_ascii ''b'', of_ascii ''c''],
                  [of_ascii ''x'', of_ascii ''y''], [[]], [of_ascii ''z''], [of_ascii ''z'']],
          activeChannels = 3,
          console = [(ConsoleLog, [JString (of_ascii ''[X]''), JOther ()])]\<rparr>)"
  by (simp add: example_world_def getActiveChannels_def active_def)

lemma env_example_pieces:
  "filter (\<lambda>c. c \<noteq> []) (map trim (split (of_ascii ''a, b ,c'') comma))
     = [of_ascii ''a'', of_ascii ''b'', of_ascii ''c'']"
  by (simp add: of_ascii_def comma_def trim_def isWhiteSpace_def)

lemma part000_same_functions:
  "initChannels_part000 = initChannels" "setChannel_part000 = setChannel"
  "log_part000 = log" "error_part000 = error" "debug_part000 = debug"
  "getActiveChannels_part000 = getActiveChannels"
proof -
  have t: "initChannels_try_part000 = initChannels_try"
    by (intro ext) (simp add: initChannels_try_part000_def initChannels_try_def)
  show "initChannels_part000 = initChannels"
    by (intro ext) (simp add: initChannels_part000_def initChannels_def t)
  show "setChannel_part000 = setChannel"
    by (intro ext) (simp add: setChannel_part000_def setChannel_def)
  have p: "processLogEvent_part000 = processLogEvent"
    by (intro ext) (simp add: processLogEvent_part000_def processLogEvent_def)
  show "log_part000 = log" by (intro ext) (simp add: log_part000_def log_def p)
  show "error_part000 = error" by (intro ext) (simp add: error_part000_def error_def p)
  show "debug_part000 = debug" by (intro ext) (simp add: debug_part000_def debug_def p)
  show "getActiveChannels_part000 = getActiveChannels"
    by (intro ext) (simp add: getActiveChannels_part000_def getActiveChannels_def)
qed

lemma step_part000_same: "step_part000 up w c = step up w c"
  by (cases c) (simp_all add: part000_same_functions)

lemma foldl_step_part000_same: "foldl (step_part000 up) w cs = foldl (step up) w cs"
  by (induction cs arbitrary: w) (simp_all add: step_part000_same)


section \<open>The claims\<close>

subsection \<open>When a call writes\<close>

text \<open>
  Claim C1.  In any state, for any channel string and any messages, each of \<open>log\<close>,
  \<open>error\<close> and \<open>debug\<close> writes something exactly when there is at least one message and
  the channel string, as given, is an element of the active set.  So a channel string with
  leading or trailing whitespace writes nothing when the active set holds only its trimmed
  form.
\<close>

theorem fires_iff_messages_and_exact_member:
  "(emitted st (log up ch ms st) \<noteq> [] \<longleftrightarrow> ms \<noteq> [] \<and> ch \<in> set (active st))
   \<and> (emitted st (error up ch ms st) \<noteq> [] \<longleftrightarrow> ms \<noteq> [] \<and> ch \<in> set (active st))
   \<and> (emitted st (debug up ch ms st) \<noteq> [] \<longleftrightarrow> ms \<noteq> [] \<and> ch \<in> set (active st))
   \<and> (trim ch \<noteq> ch \<and> set (active st) \<subseteq> {trim ch} \<longrightarrow>
        emitted st (log up ch ms st) = [] \<and> emitted st (error up ch ms st) = []
        \<and> emitted st (debug up ch ms st) = [])"
  by (auto simp add: emitted_log emitted_error emitted_debug)

theorem fires_iff_messages_and_exact_member_witness:
  "trim (of_ascii '' net'') \<noteq> of_ascii '' net''
   \<and> set (active (assign [of_ascii ''net''] (uninitialised :: unit state)))
       \<subseteq> {trim (of_ascii '' net'')}
   \<and> emitted (assign [of_ascii ''net''] uninitialised)
        (log toUpperCase_ascii (of_ascii '' net'') [JOther ()]
           (assign [of_ascii ''net''] uninitialised)) = []
   \<and> emitted (assign [of_ascii ''net''] uninitialised)
        (log toUpperCase_ascii (of_ascii ''net'') [JOther ()]
           (assign [of_ascii ''net''] uninitialised)) \<noteq> []"
proof -
  let ?st = "assign [of_ascii ''net''] (uninitialised :: unit state)"
  have a: "trim (of_ascii '' net'') \<noteq> of_ascii '' net''"
    by (simp add: trim_def of_ascii_def isWhiteSpace_def)
  have b: "set (active ?st) \<subseteq> {trim (of_ascii '' net'')}"
    by (simp add: active_assign trim_def of_ascii_def isWhiteSpace_def)
  have c: "[JOther ()] \<noteq> [] \<and> of_ascii ''net'' \<in> set (active ?st)"
    by (simp add: active_assign)
  have d: "emitted ?st (log toUpperCase_ascii (of_ascii '' net'') [JOther ()] ?st) = []"
    by (rule fires_iff_messages_and_exact_member
          [of ?st toUpperCase_ascii "of_ascii '' net''" "[JOther ()]",
           THEN conjunct2, THEN conjunct2, THEN conjunct2, THEN mp, OF conjI [OF a b],
           THEN conjunct1])
  have e: "emitted ?st (log toUpperCase_ascii (of_ascii ''net'') [JOther ()] ?st) \<noteq> []"
    by (rule fires_iff_messages_and_exact_member
          [of ?st toUpperCase_ascii "of_ascii ''net''" "[JOther ()]",
           THEN conjunct1, THEN iffD2, OF c])
  show ?thesis by (intro conjI a b d e)
qed

subsection \<open>Replacing the active set\<close>

text \<open>
  Claim C2.  After \<open>setChannel\<close> with an array, the active set is that array with every
  element trimmed and the elements that are then empty left out, in the same order and with
  duplicates kept; after \<open>setChannel\<close> with one string it is the trimmed string alone, or
  no channel at all when the trimmed string is empty.  The set before the call plays no
  part in the result.
\<close>

theorem setChannel_replaces:
  "active (setChannel (Arr cs) st) = filter (\<lambda>c. c \<noteq> []) (map trim cs)
   \<and> active (setChannel (Str s) st) = (if trim s = [] then [] else [trim s])"
  by (simp add: setChannel_def active_assign nonEmpty_def [abs_def] Let_def)

lemma setChannel_replace_example:
  "active (setChannel (Str (of_ascii ''z''))
     (setChannel (Arr [of_ascii ''x'', of_ascii ''y'']) (uninitialised :: unit state)))
   = [of_ascii ''z'']"
  by (simp add: setChannel_def active_assign Let_def trim_def of_ascii_def isWhiteSpace_def)

lemma setChannel_whitespace_example:
  "active (setChannel (Arr [of_ascii ''  '', [0x09], of_ascii ''ok'', of_ascii '' ok''])
     (uninitialised :: unit state))
   = [of_ascii ''ok'', of_ascii ''ok'']"
  by (simp add: setChannel_def active_assign Let_def trim_def of_ascii_def isWhiteSpace_def nonEmpty_def)

subsection \<open>What a call writes\<close>

text \<open>
  Claim C5.  A call that fires writes one record to its own sink: \<open>console.log\<close> for
  \<open>log\<close>, \<open>console.error\<close> for \<open>error\<close>, \<open>console.debug\<close> for \<open>debug\<close>.  The record
  starts with the prefix, which is the upper-cased channel between brackets, followed by
  \<open>:ERROR\<close> or \<open>:DEBUG\<close> inside the brackets for \<open>error\<close> and \<open>debug\<close>; the messages
  follow unchanged and in order.  The test for firing reads the channel as given.
\<close>

theorem fired_record:
  "ms \<noteq> [] \<and> ch \<in> set (active st) \<longrightarrow>
     emitted st (log up ch ms st)
       = [(ConsoleLog, JString (of_ascii ''['' @ up ch @ of_ascii '']'') # ms)]
     \<and> emitted st (error up ch ms st)
       = [(ConsoleError, JString (of_ascii ''['' @ up ch @ of_ascii '':ERROR]'') # ms)]
     \<and> emitted st (debug up ch ms st)
       = [(ConsoleDebug, JString (of_ascii ''['' @ up ch @ of_ascii '':DEBUG]'') # ms)]"
  by (simp add: emitted_log emitted_error emitted_debug)

theorem fired_record_witness:
  "[JOther (1::nat), JOther 2] \<noteq> []
   \<and> of_ascii ''net'' \<in> set (active (assign [of_ascii ''net''] (uninitialised :: nat state)))
   \<and> emitted (assign [of_ascii ''net''] uninitialised)
       (log toUpperCase_ascii (of_ascii ''net'') [JOther (1::nat), JOther 2]
          (assign [of_ascii ''net''] uninitialised))
     = [(ConsoleLog, [JString (of_ascii ''[NET]''), JOther 1, JOther 2])]
   \<and> emitted (assign [of_ascii ''net''] uninitialised)
       (error toUpperCase_ascii (of_ascii ''net'') [JOther (1::nat), JOther 2]
          (assign [of_ascii ''net''] uninitialised))
     = [(ConsoleError, [JString (of_ascii ''[NET:ERROR]''), JOther 1, JOther 2])]
   \<and> emitted (assign [of_ascii ''net''] uninitialised)
       (debug toUpperCase_ascii (of_ascii ''net'') [JOther (1::nat), JOther 2]
          (assign [of_ascii ''net''] uninitialised))
     = [(ConsoleDebug, [JString (of_ascii ''[NET:DEBUG]''), JOther 1, JOther 2])]"
proof -
  let ?st = "assign [of_ascii ''net''] (uninitialised :: nat state)"
  have h: "[JOther (1::nat), JOther 2] \<noteq> [] \<and> of_ascii ''net'' \<in> set (active ?st)"
    by (simp add: active_assign)
  have u: "toUpperCase_ascii (of_ascii ''net'') = of_ascii ''NET''"
    by (simp add: toUpperCase_ascii_def of_ascii_def)
  have p: "of_ascii ''['' @ of_ascii ''NET'' @ of_ascii '']'' = of_ascii ''[NET]''"
    "of_ascii ''['' @ of_ascii ''NET'' @ of_ascii '':ERROR]'' = of_ascii ''[NET:ERROR]''"
    "of_ascii ''['' @ of_ascii ''NET'' @ of_ascii '':DEBUG]'' = of_ascii ''[NET:DEBUG]''"
    by (simp_all add: of_ascii_def)
  note r = fired_record
    [of "[JOther (1::nat), JOther 2]" "of_ascii ''net''" ?st toUpperCase_ascii,
     THEN mp, OF h, unfolded u p]
  show ?thesis by (intro conjI h [THEN conjunct1] h [THEN conjunct2] r [THEN conjunct1]
      r [THEN conjunct2, THEN conjunct1] r [THEN conjunct2, THEN conjunct2])
qed

subsection \<open>Calls that leave the active set alone\<close>

text \<open>
  Claim C8.  \<open>log\<close>, \<open>error\<close>, \<open>debug\<close> and \<open>getActiveChannels\<close> do not assign the
  variable \<open>activeChannels\<close>, and the array it refers to has the same elements after the
  call as before.  (For \<open>getActiveChannels\<close>, which creates an array, this is stated for
  states in which the variable refers to an existing array.)
\<close>

theorem logging_and_reading_keep_active_set:
  "activeChannels (log up ch ms st) = activeChannels st
   \<and> active (log up ch ms st) = active st
   \<and> activeChannels (error up ch ms st) = activeChannels st
   \<and> active (error up ch ms st) = active st
   \<and> activeChannels (debug up ch ms st) = activeChannels st
   \<and> active (debug up ch ms st) = active st
   \<and> activeChannels (snd (getActiveChannels st)) = activeChannels st
   \<and> (wf_state st \<longrightarrow> active (snd (getActiveChannels st)) = active st)"
  by (simp add: active_def [of "log up ch ms st"] active_def [of "error up ch ms st"]
      active_def [of "debug up ch ms st"] active_def [of st, symmetric]
      frame_log frame_error frame_debug getActiveChannels_frame active_getActiveChannels)

theorem logging_and_reading_keep_active_set_witness:
  "wf_state (assign [of_ascii ''a''] (uninitialised :: unit state))
   \<and> active (snd (getActiveChannels (assign [of_ascii ''a''] (uninitialised :: unit state))))
     = [of_ascii ''a'']
   \<and> active (log toUpperCase_ascii (of_ascii ''a'') [JOther ()]
        (assign [of_ascii ''a''] uninitialised)) = [of_ascii ''a'']"
proof -
  let ?st = "assign [of_ascii ''a''] (uninitialised :: unit state)"
  have h: "wf_state ?st" by (simp add: wf_state_def assign_def)
  note r = logging_and_reading_keep_active_set
    [of toUpperCase_ascii "of_ascii ''a''" "[JOther ()]" ?st, unfolded active_assign]
  have g: "active (snd (getActiveChannels ?st)) = [of_ascii ''a'']"
    by (rule r [THEN conjunct2, THEN conjunct2, THEN conjunct2, THEN conjunct2,
          THEN conjunct2, THEN conjunct2, THEN conjunct2, THEN mp, OF h])
  show ?thesis by (intro conjI h g r [THEN conjunct2, THEN conjunct1])
qed

subsection \<open>Initialisation from the environment\<close>

text \<open>
  Claim C3, as amended.  When \<open>LOG_CHANNELS\<close> is set, is not empty after trimming, and
  at least one of its comma-separated pieces is not empty after trimming, initialisation
  makes the active set the pieces of the value, each trimmed, the empty ones left out, in
  order and with duplicates kept.  The value \<open>a, b ,c\<close> gives \<open>a\<close>, \<open>b\<close>, \<open>c\<close>.
\<close>

theorem initChannels_parses_env:
  "trim v \<noteq> [] \<and> filter (\<lambda>c. c \<noteq> []) (map trim (split v comma)) \<noteq> [] \<longrightarrow>
     (\<exists>st'. initChannels (Inr (Some v)) st = Inr st'
        \<and> active st' = filter (\<lambda>c. c \<noteq> []) (map trim (split v comma)))"
  using initChannels_parsed [of v st]
  by (simp add: nonEmpty_def [abs_def] active_assign)

theorem initChannels_parses_env_witness:
  "trim (of_ascii ''a, b ,c'') \<noteq> []
   \<and> (\<exists>st'. LogChannel (Inr (Some (of_ascii ''a, b ,c''))) = Inr (st' :: unit state)
        \<and> active st' = [of_ascii ''a'', of_ascii ''b'', of_ascii ''c''])"
proof -
  have a: "trim (of_ascii ''a, b ,c'') \<noteq> []"
    by (simp add: of_ascii_def trim_def isWhiteSpace_def)
  have b: "filter (\<lambda>c. c \<noteq> []) (map trim (split (of_ascii ''a, b ,c'') comma)) \<noteq> []"
    by (simp add: env_example_pieces)
  note r = initChannels_parses_env
    [of "of_ascii ''a, b ,c''" "uninitialised :: unit state", THEN mp, OF conjI [OF a b],
     unfolded env_example_pieces, folded LogChannel_def]
  show ?thesis by (intro conjI a r)
qed

text \<open>
  Claim C3 as first stated has no condition on the pieces.  The value \<open> , \<close> is set and
  is the comma after trimming, all its pieces are empty after trimming, and the active set
  is \<open>default\<close>, not the empty sequence of pieces.
\<close>

theorem env_only_separators_counterexample:
  "trim (of_ascii '' , '') \<noteq> []
   \<and> filter (\<lambda>c. c \<noteq> []) (map trim (split (of_ascii '' , '') comma)) = []
   \<and> LogChannel (Inr (Some (of_ascii '' , '')))
       = Inr (assign [of_ascii ''default''] (assign [] (uninitialised :: unit state)))
   \<and> active (assign [of_ascii ''default''] (assign [] (uninitialised :: unit state)))
       = [of_ascii ''default'']"
  by (simp add: LogChannel_def initChannels_def initChannels_try_def active_assign Let_def
      of_ascii_def comma_def trim_def isWhiteSpace_def nonEmpty_def)

text \<open>
  Claim C4.  \<open>initChannels\<close> always returns normally.  When reading the variable throws,
  when the variable is unset, when its value is empty after trimming, and when all its
  comma-separated pieces are empty after trimming, the active set is \<open>default\<close> alone.  An
  exception of \<open>Deno.env.get\<close> ends the \<open>try\<close> block and is handled by the \<open>catch\<close>
  clause.
\<close>

theorem initChannels_default_and_total:
  "(\<exists>st'. initChannels env st = Inr st')
   \<and> ((env = Inl e \<or> env = Inr None
        \<or> (env = Inr (Some v)
            \<and> (trim v = [] \<or> filter (\<lambda>c. c \<noteq> []) (map trim (split v comma)) = [])))
       \<longrightarrow> (\<exists>st'. initChannels env st = Inr st' \<and> active st' = [of_ascii ''default'']))"
proof (intro conjI impI)
  show "\<exists>st'. initChannels env st = Inr st'" by (rule initChannels_total)
next
  assume "env = Inl e \<or> env = Inr None
        \<or> (env = Inr (Some v)
            \<and> (trim v = [] \<or> filter (\<lambda>c. c \<noteq> []) (map trim (split v comma)) = []))"
  then have "env = Inl e \<or> env = Inr None
     \<or> (env = Inr (Some v)
         \<and> (trim v = [] \<or> filter nonEmpty (map trim (split v comma)) = []))"
    by (simp add: nonEmpty_def [abs_def])
  from initChannels_default [OF this, of st]
  show "\<exists>st'. initChannels env st = Inr st' \<and> active st' = [of_ascii ''default'']"
    by (auto simp add: active_assign)
qed

theorem initChannels_default_and_total_witness:
  "(\<exists>st'. LogChannel (Inl PermissionDenied) = Inr (st' :: unit state)
      \<and> active st' = [of_ascii ''default''])
   \<and> (\<exists>st'. LogChannel (Inr None) = Inr (st' :: unit state)
      \<and> active st' = [of_ascii ''default''])
   \<and> (\<exists>st'. LogChannel (Inr (Some (of_ascii ''  ''))) = Inr (st' :: unit state)
      \<and> active st' = [of_ascii ''default''])
   \<and> (\<exists>st'. LogChannel (Inr (Some (of_ascii '' , ''))) = Inr (st' :: unit state)
      \<and> active st' = [of_ascii ''default''])"
proof -
  let ?u = "uninitialised :: unit state"
  have c: "trim (of_ascii ''  '') = []"
    by (simp add: of_ascii_def trim_def isWhiteSpace_def)
  have d: "filter (\<lambda>c. c \<noteq> []) (map trim (split (of_ascii '' , '') comma)) = []"
    by (simp add: of_ascii_def comma_def trim_def isWhiteSpace_def)
  have 1: "\<exists>st'. LogChannel (Inl PermissionDenied) = Inr (st' :: unit state)
      \<and> active st' = [of_ascii ''default'']"
    by (rule initChannels_default_and_total
          [where env = "Inl PermissionDenied" and e = PermissionDenied and st = ?u,
           THEN conjunct2, THEN mp, folded LogChannel_def]) simp
  have 2: "\<exists>st'. LogChannel (Inr None) = Inr (st' :: unit state)
      \<and> active st' = [of_ascii ''default'']"
    by (rule initChannels_default_and_total
          [where env = "Inr None" and st = ?u,
           THEN conjunct2, THEN mp, folded LogChannel_def]) simp
  have 3: "\<exists>st'. LogChannel (Inr (Some (of_ascii ''  ''))) = Inr (st' :: unit state)
      \<and> active st' = [of_ascii ''default'']"
    by (rule initChannels_default_and_total
          [where env = "Inr (Some (of_ascii ''  ''))" and v = "of_ascii ''  ''" and st = ?u,
           THEN conjunct2, THEN mp, folded LogChannel_def]) (simp add: c)
  have 4: "\<exists>st'. LogChannel (Inr (Some (of_ascii '' , ''))) = Inr (st' :: unit state)
      \<and> active st' = [of_ascii ''default'']"
    by (rule initChannels_default_and_total
          [where env = "Inr (Some (of_ascii '' , ''))" and v = "of_ascii '' , ''" and st = ?u,
           THEN conjunct2, THEN mp, folded LogChannel_def]) (simp add: d)
  show ?thesis by (intro conjI 1 2 3 4)
qed

subsection \<open>States a program can reach\<close>

text \<open>
  Claim C6.  Every element of the active set is trimmed and not empty: after
  \<open>setChannel\<close> from any state, after \<open>initChannels\<close> from any state, and in every
  state that a program reaches by loading the module and then calling its functions and
  changing the arrays it was given, in any order.
\<close>

theorem active_set_trimmed_nonempty:
  "(\<forall>c \<in> set (active (setChannel chs st)). trim c \<noteq> [] \<and> trim c = c \<and> c \<noteq> [])
   \<and> (\<forall>st'. initChannels env st = Inr st' \<longrightarrow>
         (\<forall>c \<in> set (active st'). trim c \<noteq> [] \<and> trim c = c \<and> c \<noteq> []))
   \<and> (\<forall>w. run up env calls = Inr w \<longrightarrow>
         (\<forall>c \<in> set (active (gate w)). trim c \<noteq> [] \<and> trim c = c \<and> c \<noteq> []))"
proof -
  have 1: "\<forall>c \<in> set (active (setChannel chs st)). trim c \<noteq> [] \<and> trim c = c \<and> c \<noteq> []"
  proof
    fix c assume "c \<in> set (active (setChannel chs st))"
    with stored_ok_setChannel [of chs st] have "stored_ok c" by (simp add: list_all_iff)
    then show "trim c \<noteq> [] \<and> trim c = c \<and> c \<noteq> []" by (rule stored_okD)
  qed
  have 2: "\<forall>st'. initChannels env st = Inr st' \<longrightarrow>
         (\<forall>c \<in> set (active st'). trim c \<noteq> [] \<and> trim c = c \<and> c \<noteq> [])"
  proof (intro allI impI ballI)
    fix st' c assume i: "initChannels env st = Inr st'" and c: "c \<in> set (active st')"
    from i have "world_inv \<lparr>gate = st', returned = []\<rparr>" by (rule inv_init)
    with c have "stored_ok c" by (simp add: world_inv_def list_all_iff)
    then show "trim c \<noteq> [] \<and> trim c = c \<and> c \<noteq> []" by (rule stored_okD)
  qed
  have 3: "\<forall>w. run up env calls = Inr w \<longrightarrow>
         (\<forall>c \<in> set (active (gate w)). trim c \<noteq> [] \<and> trim c = c \<and> c \<noteq> [])"
  proof (intro allI impI ballI)
    fix w c assume "run up env calls = Inr w" and "c \<in> set (active (gate w))"
    then have "stored_ok c" by (rule stored_ok_run)
    then show "trim c \<noteq> [] \<and> trim c = c \<and> c \<noteq> []" by (rule stored_okD)
  qed
  from 1 2 3 show ?thesis by (intro conjI)
qed

theorem active_set_trimmed_nonempty_witness:
  "run toUpperCase_ascii (Inr (Some (of_ascii ''a, b ,c''))) example_calls = Inr example_world
   \<and> of_ascii ''z'' \<in> set (active (gate example_world))
   \<and> trim (of_ascii ''z'') \<noteq> [] \<and> trim (of_ascii ''z'') = of_ascii ''z''
   \<and> of_ascii ''z'' \<noteq> []"
proof -
  have m: "of_ascii ''z'' \<in> set (active (gate example_world))"
    by (simp add: active_example_world)
  note r = active_set_trimmed_nonempty
    [THEN conjunct2, THEN conjunct2, THEN spec, THEN mp, OF run_example, THEN bspec, OF m]
  show ?thesis by (intro conjI run_example m r [THEN conjunct1]
      r [THEN conjunct2, THEN conjunct1] r [THEN conjunct2, THEN conjunct2])
qed

text \<open>
  Claim C9.  In every state a program can reach, the empty string is not in the active
  set, so \<open>log\<close>, \<open>error\<close> and \<open>debug\<close> with the empty string as channel write nothing,
  whatever the messages.
\<close>

theorem empty_channel_never_fires:
  "run up env calls = Inr w \<longrightarrow>
     [] \<notin> set (active (gate w))
     \<and> emitted (gate w) (log up [] ms (gate w)) = []
     \<and> emitted (gate w) (error up [] ms (gate w)) = []
     \<and> emitted (gate w) (debug up [] ms (gate w)) = []"
proof
  assume r: "run up env calls = Inr w"
  have n: "[] \<notin> set (active (gate w))"
  proof
    assume "[] \<in> set (active (gate w))"
    with r have "stored_ok []" by (rule stored_ok_run)
    then show False by (simp add: stored_ok_def)
  qed
  then show "[] \<notin> set (active (gate w))
     \<and> emitted (gate w) (log up [] ms (gate w)) = []
     \<and> emitted (gate w) (error up [] ms (gate w)) = []
     \<and> emitted (gate w) (debug up [] ms (gate w)) = []"
    by (simp add: emitted_log emitted_error emitted_debug)
qed

theorem empty_channel_never_fires_witness:
  "run toUpperCase_ascii (Inr (Some (of_ascii ''a, b ,c''))) example_calls = Inr example_world
   \<and> emitted (gate example_world)
        (log toUpperCase_ascii [] [JOther ()] (gate example_world)) = []
   \<and> emitted (gate example_world)
        (error toUpperCase_ascii [] [JOther ()] (gate example_world)) = []
   \<and> emitted (gate example_world)
        (debug toUpperCase_ascii [] [JOther ()] (gate example_world)) = []"
proof -
  note r = empty_channel_never_fires [THEN mp, OF run_example, of "[JOther ()]"]
  show ?thesis by (intro conjI run_example r [THEN conjunct2, THEN conjunct1]
      r [THEN conjunct2, THEN conjunct2, THEN conjunct1]
      r [THEN conjunct2, THEN conjunct2, THEN conjunct2])
qed

subsection \<open>The array that \<open>getActiveChannels\<close> returns\<close>

text \<open>
  Claim C7.  In a state where \<open>activeChannels\<close> refers to an existing array,
  \<open>getActiveChannels\<close> returns a reference \<open>r\<close> to an array with the elements of the
  active set; \<open>r\<close> is not the reference held in \<open>activeChannels\<close>; whatever the caller
  then writes into the array at \<open>r\<close>, the active set is as before and the next
  \<open>getActiveChannels\<close> returns its elements again.  Every state a program can reach is
  such a state, and there no change to any array handed out earlier changes the active
  set.
\<close>

theorem getActiveChannels_returns_copy:
  "(wf_state st \<and> getActiveChannels st = (r, st') \<longrightarrow>
      heap st' ! r = active st
      \<and> r \<noteq> activeChannels st'
      \<and> active st' = active st
      \<and> active (mutate r ys st') = active st
      \<and> heap (snd (getActiveChannels (mutate r ys st')))
           ! fst (getActiveChannels (mutate r ys st')) = active st)
   \<and> (run up env calls = Inr w \<longrightarrow>
        wf_state (gate w)
        \<and> (\<forall>a \<in> set (returned w). active (mutate a ys (gate w)) = active (gate w)))"
proof -
  have A: "wf_state st \<and> getActiveChannels st = (r, st') \<longrightarrow>
      heap st' ! r = active st
      \<and> r \<noteq> activeChannels st'
      \<and> active st' = active st
      \<and> active (mutate r ys st') = active st
      \<and> heap (snd (getActiveChannels (mutate r ys st')))
           ! fst (getActiveChannels (mutate r ys st')) = active st"
  proof
    assume h: "wf_state st \<and> getActiveChannels st = (r, st')"
    then have w: "activeChannels st < length (heap st)" by (simp add: wf_state_def)
    from h have r: "r = length (heap st)" and st': "st' = st\<lparr>heap := heap st @ [active st]\<rparr>"
      by (auto simp add: getActiveChannels_def)
    have 1: "heap st' ! r = active st" by (simp add: r st')
    from w have 2: "r \<noteq> activeChannels st'" by (simp add: r st')
    from w have 3: "active st' = active st" by (simp add: st' active_def nth_append)
    from 2 have "active (mutate r ys st') = active st'"
      by (simp add: active_mutate)
    with 3 have 4: "active (mutate r ys st') = active st" by simp
    have "heap (snd (getActiveChannels (mutate r ys st')))
             ! fst (getActiveChannels (mutate r ys st')) = active (mutate r ys st')"
      by (simp add: getActiveChannels_def)
    with 4 have 5: "heap (snd (getActiveChannels (mutate r ys st')))
             ! fst (getActiveChannels (mutate r ys st')) = active st" by simp
    from 1 2 3 4 5 show "heap st' ! r = active st
        \<and> r \<noteq> activeChannels st'
        \<and> active st' = active st
        \<and> active (mutate r ys st') = active st
        \<and> heap (snd (getActiveChannels (mutate r ys st')))
             ! fst (getActiveChannels (mutate r ys st')) = active st"
      by simp
  qed
  have B: "run up env calls = Inr w \<longrightarrow>
        wf_state (gate w)
        \<and> (\<forall>a \<in> set (returned w). active (mutate a ys (gate w)) = active (gate w))"
  proof
    assume "run up env calls = Inr w"
    then have i: "world_inv w" by (rule inv_run)
    then have 1: "wf_state (gate w)" by (simp add: world_inv_def)
    have 2: "\<forall>a \<in> set (returned w). active (mutate a ys (gate w)) = active (gate w)"
    proof
      fix a assume "a \<in> set (returned w)"
      with i have "a \<noteq> activeChannels (gate w)" by (auto simp add: world_inv_def)
      then show "active (mutate a ys (gate w)) = active (gate w)" by (rule active_mutate)
    qed
    from 1 2 show "wf_state (gate w)
        \<and> (\<forall>a \<in> set (returned w). active (mutate a ys (gate w)) = active (gate w))"
      by simp
  qed
  from A B show ?thesis by (rule conjI)
qed

theorem getActiveChannels_returns_copy_witness:
  "wf_state (gate example_world)
   \<and> active (mutate 4 [of_ascii ''changed'']
        (snd (getActiveChannels (gate example_world)))) = [of_ascii ''z'']
   \<and> 2 \<in> set (returned example_world)
   \<and> active (mutate 2 [of_ascii ''changed''] (gate example_world)) = [of_ascii ''z'']"
proof -
  have w: "wf_state (gate example_world)" by (simp add: wf_state_def example_world_def)
  have g: "getActiveChannels (gate example_world)
             = (4, snd (getActiveChannels (gate example_world)))"
    by (simp add: getActiveChannels_example)
  have m: "2 \<in> set (returned example_world)" by (simp add: example_world_def)
  note a = getActiveChannels_returns_copy
    [where ys = "[of_ascii ''changed'']", THEN conjunct1, THEN mp, OF conjI [OF w g],
     unfolded active_example_world]
  note b = getActiveChannels_returns_copy
    [where ys = "[of_ascii ''changed'']", THEN conjunct2, THEN mp, OF run_example,
     THEN conjunct2, THEN bspec, OF m, unfolded active_example_world]
  show ?thesis
    by (intro conjI w m b a [THEN conjunct2, THEN conjunct2, THEN conjunct2, THEN conjunct1])
qed

subsection \<open>The two source files\<close>

text \<open>
  Claim C10.  The module of \<open>src/unnamed/part_000\<close> and the module of
  \<open>src/logchannel.ts\<close> behave alike: loading with the same result of the environment
  read and running the same program gives the same heap, the same active set, the same
  references returned and the same records on the same sinks; each function of one module
  is equal to its counterpart.
\<close>

theorem both_modules_equivalent:
  "run_part000 up env calls = run up env calls
   \<and> LogChannel_part000 env = (LogChannel env :: error + 'u state)
   \<and> setChannel_part000 chs st = setChannel chs (st :: 'u state)
   \<and> log_part000 up ch ms st = log up ch ms st
   \<and> error_part000 up ch ms st = error up ch ms st
   \<and> debug_part000 up ch ms st = debug up ch ms st
   \<and> getActiveChannels_part000 st = getActiveChannels st"
  by (simp add: run_part000_def run_def LogChannel_part000_def LogChannel_def
      part000_same_functions foldl_step_part000_same split: sum.splits)

end
